theory Spec2Isabelle
  imports Main "HOL-Library.Word" "HOL-Library.AList" "HOL-Library.Multiset"
    "HOL-Library.Monad_Syntax"
begin

section \<open>The ArUco marker detector of SpectatorView.Compositor\<close>

text \<open>
  A shallow embedding of \<^verbatim>\<open>Compositor/ArUcoMarkerDetector.cpp\<close>. The class keeps one
  member, the container \<^verbatim>\<open>_detectedMarkers\<close>, and has four methods:
  \<^verbatim>\<open>DetectMarkers\<close>, \<^verbatim>\<open>GetDetectedMarkerIds\<close>, \<^verbatim>\<open>GetDetectedMarkerPose\<close> and
  \<^verbatim>\<open>GetDilatedMask\<close>. Every method is a function from the detector (and the memory
  its pointer arguments address) to the returned value and the detector and memory
  afterwards. The calls of \<^verbatim>\<open>OutputDebugString\<close> only write to the debugger's log and
  are left out.
\<close>

subsection \<open>Machine types\<close>

text \<open>
  \<^verbatim>\<open>int\<close> is 32 bits wide and read with \<open>sint\<close>; \<^verbatim>\<open>size_t\<close> is the 64 bits of the
  x64 build and read with \<open>unat\<close> (with the 32 bits of an x86 build a negative
  \<^verbatim>\<open>int\<close> becomes a large \<^verbatim>\<open>size_t\<close> in the same way). A \<^verbatim>\<open>float\<close> and a \<^verbatim>\<open>double\<close> are their IEEE 754
  bit patterns; the conversions between them are the compiler's and are parameters of
  the model (\<open>float_to_double\<close>, \<open>double_to_float\<close> below).
\<close>

type_synonym cint = "32 word"
type_synonym size_t = "64 word"
type_synonym uint16_t = "16 word"
type_synonym uchar = "8 word"
type_synonym float = "32 word"
type_synonym double = "64 word"

text \<open>The \<^verbatim>\<open>double\<close> literals of the source: \<^verbatim>\<open>cv::Scalar(0)\<close> and \<^verbatim>\<open>1.0\<close>.\<close>

definition double_0 :: double where
  "double_0 = 0"

definition double_1 :: double where
  "double_1 = 0x3FF0000000000000"

text \<open>\<^verbatim>\<open>static_cast<size_t>(size)\<close> of an \<^verbatim>\<open>int\<close>: sign extension, then reading unsigned.\<close>

definition static_cast_size_t :: "cint \<Rightarrow> size_t" where
  "static_cast_size_t n = scast n"

subsection \<open>Data\<close>

text \<open>
  \<^verbatim>\<open>Vector3\<close> and \<^verbatim>\<open>Marker\<close> are declared in headers that are not among the sources;
  their fields are the ones the source file reads and writes. The field \<^verbatim>\<open>id\<close> is
  \<open>marker_id\<close> here, \<open>id\<close> being the identity function of HOL.
\<close>

record Vector3 =
  x :: float
  y :: float
  z :: float

record Marker =
  marker_id :: cint
  position :: Vector3
  rotation :: Vector3

text \<open>\<^verbatim>\<open>cv::Vec3d\<close>: three doubles, read with \<^verbatim>\<open>[0]\<close>, \<^verbatim>\<open>[1]\<close>, \<^verbatim>\<open>[2]\<close>.\<close>

datatype Vec3d = Vec3d (v0: double) (v1: double) (v2: double)

text \<open>
  \<^verbatim>\<open>cv::Mat\<close> with one channel: the numbers of rows and columns and the elements in
  row-major order. \<^verbatim>\<open>m.at<T>(i, j) = v\<close> is \<open>at_put\<close>.
\<close>

record 'a Mat =
  rows :: nat
  cols :: nat
  elems :: "'a list"

definition Mat_fill :: "nat \<Rightarrow> nat \<Rightarrow> 'a \<Rightarrow> 'a Mat" where
  "Mat_fill r c v = \<lparr>rows = r, cols = c, elems = replicate (r * c) v\<rparr>"

definition at_put :: "'a Mat \<Rightarrow> nat \<Rightarrow> nat \<Rightarrow> 'a \<Rightarrow> 'a Mat" where
  "at_put m i j v = m\<lparr>elems := (elems m)[i * cols m + j := v]\<rparr>"

definition mat_at :: "'a Mat \<Rightarrow> nat \<Rightarrow> nat \<Rightarrow> 'a" where
  "mat_at m i j = elems m ! (i * cols m + j)"

subsection \<open>The container \<^verbatim>\<open>_detectedMarkers\<close>\<close>

text \<open>
  Modelled from the spec: the declaration of \<^verbatim>\<open>_detectedMarkers\<close> is in
  \<^verbatim>\<open>ArUcoMarkerDetector.h\<close>, which is not among the sources. The spec describes it as
  a mapping from marker identifier to marker with unique identifiers, in which a later
  assignment to an identifier overwrites the earlier one, and whose iteration order is
  whatever the container's order happens to be.

  The container is the list of its entries in iteration order. \<^verbatim>\<open>c[k] = v\<close> overwrites
  the entry of \<open>k\<close> or adds one (\<open>AList.update\<close>), after which the container may
  present its entries in any order: \<open>perm\<close>, a parameter, rearranges them, and a
  \<open>perm\<close> that would add, drop or change an entry is ignored.
\<close>

type_synonym store = "(cint \<times> Marker) list"

definition reorder :: "(store \<Rightarrow> store) \<Rightarrow> store \<Rightarrow> store" where
  "reorder perm s = (if mset (perm s) = mset s then perm s else s)"

definition store_assign :: "(store \<Rightarrow> store) \<Rightarrow> cint \<Rightarrow> Marker \<Rightarrow> store \<Rightarrow> store" where
  "store_assign perm k v s = reorder perm (AList.update k v s)"

text \<open>\<^verbatim>\<open>c.find(k)\<close>: the entry of \<open>k\<close>, \<open>None\<close> for \<^verbatim>\<open>c.end()\<close>.\<close>

definition store_find :: "store \<Rightarrow> cint \<Rightarrow> Marker option" where
  "store_find s k = map_of s k"

record ArUcoMarkerDetector =
  detectedMarkers :: store

subsection \<open>What the method calls outside this file\<close>

text \<open>
  The OpenCV routines, the two floating-point conversions and the order of the container
  are parameters. An OpenCV routine that throws returns \<open>None\<close>. The types of a
  grey image \<open>'g\<close>, of a dictionary \<open>'d\<close> and of the corners of one marker \<open>'q\<close> are
  OpenCV's own and stay abstract.
  \<^item> \<open>cvtColor\<close> takes the header \<^verbatim>\<open>cv::Mat image(imageHeight, imageWidth, CV_8UC4,
    imageData)\<close> (rows, columns, the bytes at the pointer) and converts BGRA to grey;
  \<^item> \<open>detectMarkers\<close> is called with \<^verbatim>\<open>DetectorParameters::create()\<close> and returns the
    corners and the identifiers of the accepted markers (the rejected candidates are
    never read);
  \<^item> \<open>estimatePoseSingleMarkers\<close> returns the rotation and the translation vectors.
\<close>

record ('g, 'd, 'q) externals =
  float_to_double :: "float \<Rightarrow> double"
  double_to_float :: "double \<Rightarrow> float"
  container_order :: "store \<Rightarrow> store"
  cvtColor :: "cint \<times> cint \<times> (nat \<Rightarrow> uchar) \<Rightarrow> 'g option"
  getPredefinedDictionary :: "cint \<Rightarrow> 'd option"
  detectMarkers :: "'g \<Rightarrow> 'd \<Rightarrow> ('q list \<times> cint list) option"
  estimatePoseSingleMarkers ::
    "'q list \<Rightarrow> float \<Rightarrow> double Mat \<Rightarrow> double Mat \<Rightarrow> (Vec3d list \<times> Vec3d list) option"

subsection \<open>\<^verbatim>\<open>DetectMarkers\<close>\<close>

text \<open>
  A pointer to floats is the memory it addresses, indexed by offset. Lines 67 to 72 build
  the camera matrix, lines 75 to 80 the distortion coefficients.
\<close>

definition cameraMatrix_of ::
  "('g, 'd, 'q) externals \<Rightarrow> (nat \<Rightarrow> float) \<Rightarrow> (nat \<Rightarrow> float) \<Rightarrow> double Mat" where
  "cameraMatrix_of ext focalLength principalPoint =
     (let m0 = Mat_fill 3 3 double_0;
          m1 = at_put m0 0 0 (float_to_double ext (focalLength 0));
          m2 = at_put m1 0 2 (float_to_double ext (principalPoint 0));
          m3 = at_put m2 1 1 (float_to_double ext (focalLength 1));
          m4 = at_put m3 1 2 (float_to_double ext (principalPoint 1));
          m5 = at_put m4 2 2 double_1
      in m5)"

definition distCoeffMatrix_of ::
  "('g, 'd, 'q) externals \<Rightarrow> (nat \<Rightarrow> float) \<Rightarrow> (nat \<Rightarrow> float) \<Rightarrow> double Mat" where
  "distCoeffMatrix_of ext radialDistortion tangentialDistortion =
     (let m0 = Mat_fill 1 5 double_0;
          m1 = at_put m0 0 0 (float_to_double ext (radialDistortion 0));
          m2 = at_put m1 0 1 (float_to_double ext (radialDistortion 1));
          m3 = at_put m2 0 2 (float_to_double ext (tangentialDistortion 0));
          m4 = at_put m3 0 3 (float_to_double ext (tangentialDistortion 1));
          m5 = at_put m4 0 4 (float_to_double ext (radialDistortion 2))
      in m5)"

text \<open>Lines 36 to 91: the calls of OpenCV, up to the pose vectors.\<close>

definition detect_and_estimate ::
  "('g, 'd, 'q) externals \<Rightarrow> (nat \<Rightarrow> uchar) \<Rightarrow> cint \<Rightarrow> cint \<Rightarrow> (nat \<Rightarrow> float) \<Rightarrow>
   (nat \<Rightarrow> float) \<Rightarrow> (nat \<Rightarrow> float) \<Rightarrow> (nat \<Rightarrow> float) \<Rightarrow> float \<Rightarrow> cint \<Rightarrow>
   (cint list \<times> Vec3d list \<times> Vec3d list) option" where
  "detect_and_estimate ext imageData imageWidth imageHeight focalLength principalPoint
       radialDistortion tangentialDistortion markerSize arUcoMarkerDictionaryId =
     do {
       grayImage \<leftarrow> cvtColor ext (imageHeight, imageWidth, imageData);
       arUcoDictionary \<leftarrow> getPredefinedDictionary ext arUcoMarkerDictionaryId;
       (arUcoMarkers, arUcoMarkerIds) \<leftarrow> detectMarkers ext grayImage arUcoDictionary;
       (rotationVecs, translationVecs) \<leftarrow>
         estimatePoseSingleMarkers ext arUcoMarkers markerSize
           (cameraMatrix_of ext focalLength principalPoint)
           (distCoeffMatrix_of ext radialDistortion tangentialDistortion);
       Some (arUcoMarkerIds, rotationVecs, translationVecs)
     }"

text \<open>Lines 104 to 111: the marker of one detection.\<close>

definition make_marker :: "('g, 'd, 'q) externals \<Rightarrow> cint \<Rightarrow> Vec3d \<Rightarrow> Vec3d \<Rightarrow> Marker" where
  "make_marker ext id' translationVec rotationVec =
     \<lparr>marker_id = id',
      position = \<lparr>x = double_to_float ext (v0 translationVec),
                  y = double_to_float ext (v1 translationVec),
                  z = double_to_float ext (v2 translationVec)\<rparr>,
      rotation = \<lparr>x = double_to_float ext (v0 rotationVec),
                  y = double_to_float ext (v1 rotationVec),
                  z = double_to_float ext (v2 rotationVec)\<rparr>\<rparr>"

text \<open>
  Lines 94 to 113: the loop over \<^verbatim>\<open>i\<close>. \<^verbatim>\<open>translationVecs[i]\<close> and \<^verbatim>\<open>rotationVecs[i]\<close>
  beyond the end of their vector are undefined behaviour: \<open>None\<close>.
\<close>

function marker_loop ::
  "('g, 'd, 'q) externals \<Rightarrow> cint list \<Rightarrow> Vec3d list \<Rightarrow> Vec3d list \<Rightarrow> nat \<Rightarrow> store \<Rightarrow>
   store option" where
  "marker_loop ext arUcoMarkerIds rotationVecs translationVecs i s =
     (if i < length arUcoMarkerIds then
        (if i < length translationVecs \<and> i < length rotationVecs then
           marker_loop ext arUcoMarkerIds rotationVecs translationVecs (i + 1)
             (store_assign (container_order ext) (arUcoMarkerIds ! i)
                (make_marker ext (arUcoMarkerIds ! i) (translationVecs ! i) (rotationVecs ! i)) s)
         else None)
      else Some s)"
  by pat_completeness auto
termination
  by (relation "measure (\<lambda>(ext, ids, rvecs, tvecs, i, s). length ids - i)") auto

declare marker_loop.simps [simp del]

text \<open>
  The method: the OpenCV calls, \<^verbatim>\<open>_detectedMarkers.clear()\<close>, the loop, \<^verbatim>\<open>return true\<close>.
  \<open>None\<close> is a call that does not return (an exception of OpenCV, undefined behaviour).
\<close>

definition DetectMarkers ::
  "('g, 'd, 'q) externals \<Rightarrow> ArUcoMarkerDetector \<Rightarrow> (nat \<Rightarrow> uchar) \<Rightarrow> cint \<Rightarrow> cint \<Rightarrow>
   (nat \<Rightarrow> float) \<Rightarrow> (nat \<Rightarrow> float) \<Rightarrow> (nat \<Rightarrow> float) \<Rightarrow> (nat \<Rightarrow> float) \<Rightarrow> float \<Rightarrow> cint \<Rightarrow>
   (bool \<times> ArUcoMarkerDetector) option" where
  "DetectMarkers ext det imageData imageWidth imageHeight focalLength principalPoint
       radialDistortion tangentialDistortion markerSize arUcoMarkerDictionaryId =
     do {
       (arUcoMarkerIds, rotationVecs, translationVecs) \<leftarrow>
         detect_and_estimate ext imageData imageWidth imageHeight focalLength principalPoint
           radialDistortion tangentialDistortion markerSize arUcoMarkerDictionaryId;
       let cleared = det\<lparr>detectedMarkers := []\<rparr>;
       detected \<leftarrow>
         marker_loop ext arUcoMarkerIds rotationVecs translationVecs 0 (detectedMarkers cleared);
       Some (True, cleared\<lparr>detectedMarkers := detected\<rparr>)
     }"

subsection \<open>\<^verbatim>\<open>GetDetectedMarkerIds\<close>\<close>

text \<open>
  \<^verbatim>\<open>_detectedIds\<close> is the memory at the pointer, indexed by offset; the method does not
  know how much of it the caller owns, and writes where the loop writes. The container's
  \<^verbatim>\<open>size()\<close> is the number of its entries. \<^verbatim>\<open>index\<close> counts the entries written and is
  a natural number (an \<^verbatim>\<open>int\<close> in the source, which more than \<open>2^31 - 1\<close> markers
  would overflow).
\<close>

fun write_ids :: "store \<Rightarrow> (nat \<Rightarrow> cint) \<Rightarrow> nat \<Rightarrow> (nat \<Rightarrow> cint)" where
  "write_ids [] detectedIds index = detectedIds"
| "write_ids (markerPair # rest) detectedIds index =
     write_ids rest (detectedIds(index := marker_id (snd markerPair))) (index + 1)"

definition GetDetectedMarkerIds ::
  "ArUcoMarkerDetector \<Rightarrow> (nat \<Rightarrow> cint) \<Rightarrow> cint \<Rightarrow> bool \<times> (nat \<Rightarrow> cint) \<times> ArUcoMarkerDetector"
  where
  "GetDetectedMarkerIds det detectedIds size' =
     (if length (detectedMarkers det) > unat (static_cast_size_t size')
      then (False, detectedIds, det)
      else (True, write_ids (detectedMarkers det) detectedIds 0, det))"

subsection \<open>\<^verbatim>\<open>GetDetectedMarkerPose\<close>\<close>

text \<open>
  \<open>position_out\<close> and \<open>rotation_out\<close> are what the two output pointers address before
  the call (two objects of the caller); the result holds what they address afterwards.
  Each \<^verbatim>\<open>memcpy_s\<close> copies a whole \<^verbatim>\<open>Vector3\<close>.
\<close>

definition GetDetectedMarkerPose ::
  "ArUcoMarkerDetector \<Rightarrow> cint \<Rightarrow> Vector3 \<Rightarrow> Vector3 \<Rightarrow>
   bool \<times> Vector3 \<times> Vector3 \<times> ArUcoMarkerDetector" where
  "GetDetectedMarkerPose det detectedId position_out rotation_out =
     (case store_find (detectedMarkers det) detectedId of
        None \<Rightarrow> (False, position_out, rotation_out, det)
      | Some marker \<Rightarrow> (True, position marker, rotation marker, det))"

subsection \<open>\<^verbatim>\<open>GetDilatedMask\<close>\<close>

text \<open>
  The method takes a pointer and returns one, and what matters about it is which buffer
  is which, so the buffers of 16-bit labels live in an explicit heap: an address
  is an index into the list of buffers, \<open>None\<close> is a buffer that has been released, a
  new buffer takes the next address.
\<close>

type_synonym heap = "uint16_t list option list"

definition heap_read :: "heap \<Rightarrow> nat \<Rightarrow> uint16_t list option" where
  "heap_read h p = (if p < length h then h ! p else None)"

definition heap_new :: "heap \<Rightarrow> uint16_t list \<Rightarrow> heap \<times> nat" where
  "heap_new h buf = (h @ [Some buf], length h)"

definition heap_write :: "heap \<Rightarrow> nat \<Rightarrow> uint16_t list \<Rightarrow> heap" where
  "heap_write h p buf = h[p := Some buf]"

definition heap_delete :: "heap \<Rightarrow> nat \<Rightarrow> heap" where
  "heap_delete h p = h[p := None]"

text \<open>
  The two OpenCV routines of the method are parameters; \<open>None\<close> is an exception. The
  type \<open>'k\<close> of a structuring element is OpenCV's. \<open>dilate\<close> takes the source matrix
  and the structuring element and returns the elements it writes to its destination,
  which has the size and type of the source; the remaining arguments of \<^verbatim>\<open>cv::dilate\<close>
  have their default values.
\<close>

record 'k morphology =
  getStructuringElement :: "cint \<Rightarrow> cint \<times> cint \<Rightarrow> cint \<times> cint \<Rightarrow> 'k option"
  dilate :: "uint16_t Mat \<Rightarrow> 'k \<Rightarrow> uint16_t list option"

definition MORPH_RECT :: cint where
  "MORPH_RECT = 0"

text \<open>
  Lines 153 to 166, up to the point before \<^verbatim>\<open>return\<close>: the heap and the address of the
  local \<^verbatim>\<open>dilatedMask\<close>. \<^verbatim>\<open>cv::Size(col, row)\<close> is a width and a height, so the
  matrices have \<^verbatim>\<open>row\<close> rows and \<^verbatim>\<open>col\<close> columns. \<^verbatim>\<open>nonDilatedMask\<close> is a header over
  the caller's buffer and owns nothing; \<^verbatim>\<open>dilatedMask\<close> allocates its own buffer (its
  elements are indeterminate until \<^verbatim>\<open>cv::dilate\<close> writes them; the zeros here are never
  read). The method does not return (\<open>None\<close>) when \<^verbatim>\<open>mask\<close> is not a live buffer with
  at least \<^verbatim>\<open>row * col\<close> elements, or when a dimension is not positive: OpenCV rejects
  a negative size and, depending on its version, an empty image.
\<close>

definition GetDilatedMask_locals ::
  "'k morphology \<Rightarrow> heap \<Rightarrow> nat \<Rightarrow> cint \<Rightarrow> cint \<Rightarrow> (heap \<times> nat) option" where
  "GetDilatedMask_locals cv h mask' col row =
     (let dilation_type = MORPH_RECT;
          dilation_size = 1;
          size_height = nat (sint row);
          size_width = nat (sint col)
      in do {
        buf \<leftarrow> heap_read h mask';
        _ \<leftarrow> (if 0 < sint col \<and> 0 < sint row \<and> size_height * size_width \<le> length buf
              then Some () else None);
        let nonDilatedMask =
          \<lparr>rows = size_height, cols = size_width, elems = take (size_height * size_width) buf\<rparr>;
        let (h1, dilatedMask) = heap_new h (replicate (size_height * size_width) 0);
        kernal \<leftarrow> getStructuringElement cv dilation_type
          (2 * dilation_size + 1, 2 * dilation_size + 1) (dilation_size, dilation_size);
        dilated \<leftarrow> dilate cv nonDilatedMask kernal;
        Some (heap_write h1 dilatedMask dilated, dilatedMask)
      })"

text \<open>
  The method: line 168 returns \<^verbatim>\<open>mask\<close> (\<open>mask'\<close> here, \<open>mask\<close> being a
  constant of the word library), and the destructor of \<^verbatim>\<open>dilatedMask\<close> releases
  its buffer.
\<close>

definition GetDilatedMask ::
  "'k morphology \<Rightarrow> heap \<Rightarrow> nat \<Rightarrow> cint \<Rightarrow> cint \<Rightarrow> (nat \<times> heap) option" where
  "GetDilatedMask cv h mask' col row =
     do {
       (h2, dilatedMask) \<leftarrow> GetDilatedMask_locals cv h mask' col row;
       Some (mask', heap_delete h2 dilatedMask)
     }"

subsection \<open>Dilation\<close>

text \<open>
  Modelled from the spec: \<^verbatim>\<open>cv::getStructuringElement\<close> and \<^verbatim>\<open>cv::dilate\<close> are OpenCV's
  and not among the sources. The spec has the mask dilator produce a dilated copy using a
  rectangular 3 by 3 structuring element anchored at its centre, dilation being the
  morphological operation that grows labelled regions using a structuring element. A
  rectangular element has every entry set. The dilated value of a pixel is the greatest
  value the source has under the element when the element's centre is on the pixel;
  positions outside the image do not count.
\<close>

definition rect_element :: "cint \<times> cint \<Rightarrow> uchar Mat" where
  "rect_element ksize = Mat_fill (nat (sint (snd ksize))) (nat (sint (fst ksize))) 1"

text \<open>
  Modelled from the spec: \<^verbatim>\<open>cv::dilate\<close> is not among the sources. The positions (row
  and column offsets) that a structuring element covers around its centre, which is its
  anchor by default.
\<close>

definition element_offsets :: "uchar Mat \<Rightarrow> (int \<times> int) list" where
  "element_offsets k =
     [(int kr - int (rows k div 2), int kc - int (cols k div 2)).
        kr \<leftarrow> [0..<rows k], kc \<leftarrow> [0..<cols k], mat_at k kr kc \<noteq> 0]"

definition inside :: "'a Mat \<Rightarrow> int \<Rightarrow> int \<Rightarrow> bool" where
  "inside m r c = (0 \<le> r \<and> r < int (rows m) \<and> 0 \<le> c \<and> c < int (cols m))"

text \<open>
  Modelled from the spec: \<^verbatim>\<open>cv::dilate\<close> is not among the sources. One pixel of the
  dilated image: the maximum over the covered positions inside the image (0 is the least
  label).
\<close>

definition dilate_pixel :: "uint16_t Mat \<Rightarrow> (int \<times> int) list \<Rightarrow> nat \<Rightarrow> nat \<Rightarrow> uint16_t" where
  "dilate_pixel src offs r c =
     fold max
       [mat_at src (nat (int r + dr)) (nat (int c + dc)).
          (dr, dc) \<leftarrow> offs, inside src (int r + dr) (int c + dc)]
       0"

text \<open>
  Modelled from the spec: \<^verbatim>\<open>cv::dilate\<close> is not among the sources. The dilated image
  in row-major order, of the size of the source.
\<close>

definition dilate_model :: "uint16_t Mat \<Rightarrow> uchar Mat \<Rightarrow> uint16_t list" where
  "dilate_model src k =
     map (\<lambda>i. dilate_pixel src (element_offsets k) (i div cols src) (i mod cols src))
       [0..<rows src * cols src]"

text \<open>
  Modelled from the spec: the two OpenCV routines as the spec describes them, for the
  rectangular shape, the only one the method asks for.
\<close>

definition spec_morphology :: "uchar Mat morphology" where
  "spec_morphology =
     \<lparr>getStructuringElement =
        (\<lambda>shape ksize anchor. if shape = MORPH_RECT then Some (rect_element ksize) else None),
      dilate = (\<lambda>src k. Some (dilate_model src k))\<rparr>"

text \<open>The number of labelled (non-zero) pixels of a buffer.\<close>

definition labelled :: "uint16_t list \<Rightarrow> nat" where
  "labelled buf = length (filter (\<lambda>v. v \<noteq> 0) buf)"

subsection \<open>The entries of one pass\<close>

text \<open>
  The identifiers and markers that the loop of \<^verbatim>\<open>DetectMarkers\<close> assigns from index \<open>i\<close>
  on, in the order of the assignments.
\<close>

definition pass_entries ::
  "('g, 'd, 'q) externals \<Rightarrow> cint list \<Rightarrow> Vec3d list \<Rightarrow> Vec3d list \<Rightarrow> nat \<Rightarrow> store" where
  "pass_entries ext ids rvecs tvecs i =
     map (\<lambda>j. (ids ! j, make_marker ext (ids ! j) (tvecs ! j) (rvecs ! j))) [i..<length ids]"

subsection \<open>Examples\<close>

text \<open>
  Stand-ins for the parameters, for running the model: a detector that reports three
  markers, two of them with the identifier 7, another that reports none, and a container
  that reverses its iteration order at every assignment. The conversions only change the
  width of the bit pattern.
\<close>

definition example_externals :: "(unit, unit, nat) externals" where
  "example_externals =
     \<lparr>float_to_double = ucast,
      double_to_float = ucast,
      container_order = rev,
      cvtColor = (\<lambda>_. Some ()),
      getPredefinedDictionary = (\<lambda>_. Some ()),
      detectMarkers = (\<lambda>_ _. Some ([0, 1, 2], [7, 3, 7])),
      estimatePoseSingleMarkers =
        (\<lambda>_ _ _ _. Some ([Vec3d 1 2 3, Vec3d 4 5 6, Vec3d 7 8 9],
                         [Vec3d 10 11 12, Vec3d 13 14 15, Vec3d 16 17 18]))\<rparr>"

definition empty_externals :: "(unit, unit, nat) externals" where
  "empty_externals =
     example_externals
       \<lparr>detectMarkers := (\<lambda>_ _. Some ([], [])),
        estimatePoseSingleMarkers := (\<lambda>_ _ _ _. Some ([], []))\<rparr>"

definition example_marker :: "cint \<Rightarrow> Marker" where
  "example_marker k =
     \<lparr>marker_id = k, position = \<lparr>x = 1, y = 2, z = 3\<rparr>, rotation = \<lparr>x = 4, y = 5, z = 6\<rparr>\<rparr>"

definition example_detector :: ArUcoMarkerDetector where
  "example_detector = \<lparr>detectedMarkers = [(7, example_marker 7)]\<rparr>"

text \<open>The store that the example detector leaves.\<close>

definition example_store :: store where
  "example_store =
     [(7, \<lparr>marker_id = 7, position = \<lparr>x = 16, y = 17, z = 18\<rparr>,
            rotation = \<lparr>x = 7, y = 8, z = 9\<rparr>\<rparr>),
      (3, \<lparr>marker_id = 3, position = \<lparr>x = 13, y = 14, z = 15\<rparr>,
            rotation = \<lparr>x = 4, y = 5, z = 6\<rparr>\<rparr>)]"

text \<open>A 2 by 3 mask with one labelled pixel, at address 0 of the heap.\<close>

definition example_heap :: heap where
  "example_heap = [Some [0, 0, 0, 0, 5, 0]]"

section \<open>Properties\<close>

subsection \<open>The capacity check of \<^verbatim>\<open>GetDetectedMarkerIds\<close>\<close>

lemma unat_cast_nonneg:
  fixes n :: cint
  assumes "0 \<le> sint n"
  shows "unat (static_cast_size_t n) = nat (sint n)"
proof -
  have "sint n < 2 ^ 31" using sint_lt [of n] by simp
  then have "sint n mod 2 ^ 64 = sint n" using assms by simp
  moreover have "uint (scast n :: size_t) = sint n mod 2 ^ 64"
    unfolding scast_eq by (simp only: uint_word_of_int) simp
  ultimately show ?thesis
    unfolding static_cast_size_t_def by (simp add: unat_eq_nat_uint)
qed

lemma unat_cast_minus_1: "unat (static_cast_size_t (- 1)) = 18446744073709551615"
  unfolding static_cast_size_t_def
  by (simp add: unsigned_minus_1_eq_mask mask_eq_exp_minus_1)

lemma write_ids_at:
  "write_ids s buf n i =
     (if n \<le> i \<and> i < n + length s then marker_id (snd (s ! (i - n))) else buf i)"
proof (induction s arbitrary: buf n)
  case Nil
  then show ?case by auto
next
  case (Cons p s)
  show ?case by (auto simp: Cons.IH nth_Cons')
qed

text \<open>
  With a capacity that is not negative the method does what its check is for: it fails,
  writing nothing, when the capacity is below the number of markers, and writes every
  identifier otherwise.
\<close>

lemma GetDetectedMarkerIds_nonneg:
  assumes "0 \<le> sint size'"
  shows "GetDetectedMarkerIds det buf size' =
     (if sint size' < int (length (detectedMarkers det)) then (False, buf, det)
      else (True, write_ids (detectedMarkers det) buf 0, det))"
  using assms by (auto simp: GetDetectedMarkerIds_def unat_cast_nonneg)

lemma GetDetectedMarkerIds_boundary:
  assumes "1 \<le> length (detectedMarkers det)"
    and "sint size' = int (length (detectedMarkers det))"
    and "sint small = int (length (detectedMarkers det)) - 1"
  shows "fst (GetDetectedMarkerIds det buf size') \<and>
     GetDetectedMarkerIds det buf small = (False, buf, det)"
proof -
  have "0 \<le> sint size'" and "0 \<le> sint small"
    using assms by linarith+
  then show ?thesis
    using assms by (simp add: GetDetectedMarkerIds_nonneg)
qed

text \<open>
  C1: the method is to fail, leaving the buffer unwritten, for every capacity smaller than
  the number of stored markers. A negative capacity is smaller than every count, but
  \<^verbatim>\<open>static_cast<size_t>\<close> turns \<open>-1\<close> into \<open>2^64 - 1\<close>, the check passes, and the
  method writes the identifier of the one stored marker and returns \<^verbatim>\<open>true\<close>.
\<close>

theorem GetDetectedMarkerIds_negative_capacity:
  "sint (- 1 :: cint) < int (length (detectedMarkers example_detector)) \<and>
   GetDetectedMarkerIds example_detector (\<lambda>_. 0) (- 1) =
     (True, (\<lambda>_. 0)(0 := 7), example_detector)"
  by (simp add: GetDetectedMarkerIds_def unat_cast_minus_1 example_detector_def
      example_marker_def)

text \<open>
  C10: when the capacity is greater than the number of stored markers the method
  succeeds, the entries \<open>0\<close> to \<open>storedCount - 1\<close> of the buffer hold the identifiers
  of the stored markers in iteration order, every entry from \<open>storedCount\<close> on is as
  before, and the detector is unchanged.
\<close>

theorem GetDetectedMarkerIds_frame:
  assumes "int (length (detectedMarkers det)) < sint size'"
    and "GetDetectedMarkerIds det buf size' = (ok, buf', det')"
  shows "ok \<and> det' = det \<and>
     (\<forall>i. i < length (detectedMarkers det) \<longrightarrow>
        buf' i = marker_id (snd (detectedMarkers det ! i))) \<and>
     (\<forall>i. length (detectedMarkers det) \<le> i \<longrightarrow> buf' i = buf i)"
proof -
  have "0 \<le> sint size'" using assms(1) by simp
  then have "GetDetectedMarkerIds det buf size' =
      (True, write_ids (detectedMarkers det) buf 0, det)"
    using assms(1) by (simp add: GetDetectedMarkerIds_nonneg)
  with assms(2) have "ok" "det' = det" "buf' = write_ids (detectedMarkers det) buf 0"
    by auto
  then show ?thesis by (simp add: write_ids_at)
qed

theorem GetDetectedMarkerIds_frame_witness:
  "int (length (detectedMarkers example_detector)) < sint (3 :: cint) \<and>
   GetDetectedMarkerIds example_detector (\<lambda>_. 9) 3 =
     (True, (\<lambda>_. 9)(0 := 7), example_detector) \<and>
   marker_id (snd (detectedMarkers example_detector ! 0)) = 7"
proof -
  have small: "int (length (detectedMarkers example_detector)) < sint (3 :: cint)"
    by (simp add: example_detector_def)
  have run: "GetDetectedMarkerIds example_detector (\<lambda>_. 9) 3 =
      (True, (\<lambda>_. 9)(0 := 7), example_detector)"
    by (simp add: GetDetectedMarkerIds_nonneg example_detector_def example_marker_def)
  from GetDetectedMarkerIds_frame [OF small run] small run show ?thesis
    by (simp add: example_detector_def example_marker_def)
qed

subsection \<open>\<^verbatim>\<open>GetDetectedMarkerPose\<close>\<close>

text \<open>
  C3: the method fails exactly when the identifier is not a key of the store, and then
  leaves both outputs as they were; when the identifier is a key it returns the position
  and the rotation of a marker stored under it, which is the marker stored under it when
  the keys are unique; the detector is the same afterwards in every case.
\<close>

theorem GetDetectedMarkerPose_spec:
  assumes "GetDetectedMarkerPose det k pos rot = (ok, pos', rot', det')"
  shows "det' = det \<and>
     (\<not> ok \<longleftrightarrow> k \<notin> fst ` set (detectedMarkers det)) \<and>
     (\<not> ok \<longrightarrow> pos' = pos \<and> rot' = rot) \<and>
     (ok \<longrightarrow> (\<exists>m. (k, m) \<in> set (detectedMarkers det) \<and>
        pos' = position m \<and> rot' = rotation m)) \<and>
     (\<forall>m. ok \<and> distinct (map fst (detectedMarkers det)) \<and> (k, m) \<in> set (detectedMarkers det)
        \<longrightarrow> pos' = position m \<and> rot' = rotation m)"
proof (cases "map_of (detectedMarkers det) k")
  case None
  then have "k \<notin> fst ` set (detectedMarkers det)"
    by (simp add: map_of_eq_None_iff)
  with None assms show ?thesis
    by (simp add: GetDetectedMarkerPose_def store_find_def)
next
  case (Some m)
  then have mem: "(k, m) \<in> set (detectedMarkers det)"
    by (rule map_of_SomeD)
  then have key: "k \<in> fst ` set (detectedMarkers det)"
    by force
  have res: "ok" "pos' = position m" "rot' = rotation m" "det' = det"
    using Some assms by (simp_all add: GetDetectedMarkerPose_def store_find_def)
  have "m' = m"
    if "distinct (map fst (detectedMarkers det))" "(k, m') \<in> set (detectedMarkers det)" for m'
    using that Some by simp
  with res mem key show ?thesis by blast
qed

theorem GetDetectedMarkerPose_spec_witness:
  "GetDetectedMarkerPose example_detector 7 \<lparr>x = 0, y = 0, z = 0\<rparr> \<lparr>x = 0, y = 0, z = 0\<rparr> =
     (True, \<lparr>x = 1, y = 2, z = 3\<rparr>, \<lparr>x = 4, y = 5, z = 6\<rparr>, example_detector) \<and>
   GetDetectedMarkerPose example_detector 8 \<lparr>x = 0, y = 0, z = 0\<rparr> \<lparr>x = 0, y = 0, z = 0\<rparr> =
     (False, \<lparr>x = 0, y = 0, z = 0\<rparr>, \<lparr>x = 0, y = 0, z = 0\<rparr>, example_detector) \<and>
   distinct (map fst (detectedMarkers example_detector)) \<and>
   (7, example_marker 7) \<in> set (detectedMarkers example_detector) \<and>
   8 \<notin> fst ` set (detectedMarkers example_detector)"
proof -
  have found: "GetDetectedMarkerPose example_detector 7 \<lparr>x = 0, y = 0, z = 0\<rparr>
      \<lparr>x = 0, y = 0, z = 0\<rparr> =
      (True, \<lparr>x = 1, y = 2, z = 3\<rparr>, \<lparr>x = 4, y = 5, z = 6\<rparr>, example_detector)"
    by (simp add: GetDetectedMarkerPose_def store_find_def example_detector_def
        example_marker_def)
  have missing: "GetDetectedMarkerPose example_detector 8 \<lparr>x = 0, y = 0, z = 0\<rparr>
      \<lparr>x = 0, y = 0, z = 0\<rparr> =
      (False, \<lparr>x = 0, y = 0, z = 0\<rparr>, \<lparr>x = 0, y = 0, z = 0\<rparr>, example_detector)"
    by (simp add: GetDetectedMarkerPose_def store_find_def example_detector_def)
  from GetDetectedMarkerPose_spec [OF found] GetDetectedMarkerPose_spec [OF missing]
    found missing
  show ?thesis by (simp add: example_detector_def)
qed

subsection \<open>The store after \<^verbatim>\<open>DetectMarkers\<close>\<close>

lemma mset_reorder: "mset (reorder perm s) = mset s"
  by (simp add: reorder_def)

lemma set_reorder: "set (reorder perm s) = set s"
  using mset_reorder [of perm s] by (rule mset_eq_setD)

lemma length_reorder: "length (reorder perm s) = length s"
  using mset_reorder [of perm s] by (rule mset_eq_length)

lemma distinct_keys_reorder:
  "distinct (map fst (reorder perm s)) = distinct (map fst s)"
proof -
  have "mset (map fst (reorder perm s)) = mset (map fst s)"
    by (simp add: mset_reorder)
  then show ?thesis by (rule mset_eq_imp_distinct_iff)
qed

lemma map_of_reorder:
  assumes "distinct (map fst s)"
  shows "map_of (reorder perm s) = map_of s"
  using assms by (simp add: map_of_inject_set distinct_keys_reorder set_reorder)

lemma distinct_store_assign:
  "distinct (map fst s) \<Longrightarrow> distinct (map fst (store_assign perm k v s))"
  by (simp add: store_assign_def distinct_keys_reorder distinct_update)

lemma map_of_store_assign:
  "distinct (map fst s) \<Longrightarrow> map_of (store_assign perm k v s) = (map_of s)(k \<mapsto> v)"
  by (simp add: store_assign_def map_of_reorder distinct_update update_conv')

lemma pass_entries_step:
  "i < length ids \<Longrightarrow>
   pass_entries ext ids rvecs tvecs i =
     (ids ! i, make_marker ext (ids ! i) (tvecs ! i) (rvecs ! i)) #
     pass_entries ext ids rvecs tvecs (i + 1)"
  by (simp add: pass_entries_def upt_conv_Cons)

lemma pass_entries_done:
  "\<not> i < length ids \<Longrightarrow> pass_entries ext ids rvecs tvecs i = []"
  by (simp add: pass_entries_def)

lemma marker_loop_inv:
  "marker_loop ext ids rvecs tvecs i s = Some s' \<Longrightarrow> distinct (map fst s) \<Longrightarrow>
   distinct (map fst s') \<and>
   map_of s' = map_of s ++ map_of (rev (pass_entries ext ids rvecs tvecs i))"
proof (induction ext ids rvecs tvecs i s rule: marker_loop.induct)
  case (1 ext ids rvecs tvecs i s)
  show ?case
  proof (cases "i < length ids")
    case False
    with "1.prems" show ?thesis
      by (simp add: marker_loop.simps pass_entries_done)
  next
    case True
    let ?k = "ids ! i"
    let ?v = "make_marker ext (ids ! i) (tvecs ! i) (rvecs ! i)"
    let ?s1 = "store_assign (container_order ext) ?k ?v s"
    from True "1.prems"(1) have inb: "i < length tvecs \<and> i < length rvecs"
      by (simp add: marker_loop.simps split: if_splits)
    with True "1.prems"(1) have run: "marker_loop ext ids rvecs tvecs (i + 1) ?s1 = Some s'"
      by (simp add: marker_loop.simps)
    have d1: "distinct (map fst ?s1)"
      using "1.prems"(2) by (rule distinct_store_assign)
    from "1.IH" [OF True inb run d1]
    have ih: "distinct (map fst s')"
      "map_of s' = map_of ?s1 ++ map_of (rev (pass_entries ext ids rvecs tvecs (i + 1)))"
      by simp_all
    have "map_of ?s1 = map_of s ++ [?k \<mapsto> ?v]"
      using "1.prems"(2) by (simp add: map_of_store_assign)
    with ih show ?thesis
      by (simp add: pass_entries_step [OF True])
  qed
qed

lemma marker_loop_None_iff:
  "marker_loop ext ids rvecs tvecs i s = None \<longleftrightarrow>
   (\<exists>j. i \<le> j \<and> j < length ids \<and> \<not> (j < length tvecs \<and> j < length rvecs))"
proof (induction ext ids rvecs tvecs i s rule: marker_loop.induct)
  case (1 ext ids rvecs tvecs i s)
  show ?case
  proof (cases "i < length ids \<and> i < length tvecs \<and> i < length rvecs")
    case True
    then have "marker_loop ext ids rvecs tvecs i s =
        marker_loop ext ids rvecs tvecs (i + 1)
          (store_assign (container_order ext) (ids ! i)
             (make_marker ext (ids ! i) (tvecs ! i) (rvecs ! i)) s)"
      by (subst marker_loop.simps) simp
    moreover have "(\<exists>j. i \<le> j \<and> j < length ids \<and> \<not> (j < length tvecs \<and> j < length rvecs)) \<longleftrightarrow>
        (\<exists>j. i + 1 \<le> j \<and> j < length ids \<and> \<not> (j < length tvecs \<and> j < length rvecs))"
      using True by (metis Suc_eq_plus1 Suc_leI le_neq_implies_less Suc_leD)
    ultimately show ?thesis using "1.IH" True by simp
  next
    case False
    then show ?thesis
      by (subst marker_loop.simps) auto
  qed
qed

lemma last_wins:
  "j < n \<Longrightarrow> (\<forall>j'. j < j' \<and> j' < n \<longrightarrow> f j' \<noteq> f j) \<Longrightarrow>
   map_of (rev (map (\<lambda>j. (f j, g j)) [0..<n])) (f j) = Some (g j)"
proof (induction n)
  case 0
  then show ?case by simp
next
  case (Suc n)
  show ?case
  proof (cases "j = n")
    case True
    then show ?thesis by simp
  next
    case False
    with Suc.prems have "j < n" "f n \<noteq> f j" by auto
    with Suc show ?thesis by auto
  qed
qed

lemma DetectMarkers_Some_iff:
  "DetectMarkers ext det img w h fl pp rd td ms dict = Some (ok, det') \<longleftrightarrow>
   (\<exists>ids rvecs tvecs s'.
      detect_and_estimate ext img w h fl pp rd td ms dict = Some (ids, rvecs, tvecs) \<and>
      marker_loop ext ids rvecs tvecs 0 [] = Some s' \<and> ok \<and> det' = det\<lparr>detectedMarkers := s'\<rparr>)"
  by (auto simp: DetectMarkers_def bind_eq_Some_conv)

lemma DetectMarkers_None_iff:
  "DetectMarkers ext det img w h fl pp rd td ms dict = None \<longleftrightarrow>
   (detect_and_estimate ext img w h fl pp rd td ms dict = None \<or>
    (\<exists>ids rvecs tvecs.
      detect_and_estimate ext img w h fl pp rd td ms dict = Some (ids, rvecs, tvecs) \<and>
      marker_loop ext ids rvecs tvecs 0 [] = None))"
  by (cases "detect_and_estimate ext img w h fl pp rd td ms dict")
    (auto simp: DetectMarkers_def bind_eq_None_conv)

lemma store_after_pass:
  assumes "marker_loop ext ids rvecs tvecs 0 [] = Some s'"
  shows "distinct (map fst s')"
    and "map_of s' = map_of (rev (pass_entries ext ids rvecs tvecs 0))"
    and "fst ` set s' = set ids"
proof -
  from marker_loop_inv [OF assms] show d: "distinct (map fst s')"
    and m: "map_of s' = map_of (rev (pass_entries ext ids rvecs tvecs 0))"
    by simp_all
  have "fst ` set s' = dom (map_of s')"
    by (simp add: dom_map_of_conv_image_fst)
  also have "\<dots> = fst ` set (rev (pass_entries ext ids rvecs tvecs 0))"
    by (simp only: m dom_map_of_conv_image_fst)
  also have "\<dots> = (\<lambda>j. ids ! j) ` {0..<length ids}"
    unfolding pass_entries_def by (simp add: image_image)
  also have "\<dots> = set ids"
    by (simp add: set_conv_nth [of ids] image_def Bex_def conj_commute) 
  finally show "fst ` set s' = set ids" .
qed

lemma entry_after_pass:
  assumes "marker_loop ext ids rvecs tvecs 0 [] = Some s'" and "(k, m) \<in> set s'"
  shows "\<exists>j<length ids. k = ids ! j \<and> m = make_marker ext (ids ! j) (tvecs ! j) (rvecs ! j)"
proof -
  note after = store_after_pass [OF assms(1)]
  from after(1) assms(2) have "map_of s' k = Some m"
    by simp
  then have "map_of (rev (pass_entries ext ids rvecs tvecs 0)) k = Some m"
    by (simp only: after(2))
  then have "(k, m) \<in> set (pass_entries ext ids rvecs tvecs 0)"
    by (auto dest: map_of_SomeD)
  then show ?thesis
    by (auto simp: pass_entries_def)
qed

text \<open>
  C4: after a call of \<^verbatim>\<open>DetectMarkers\<close> that returns, the identifiers of the store are
  unique and are exactly the identifiers the detector reported in this pass, so nothing of
  the store before the call is left; an identifier reported several times is stored with
  the marker of its last report; and an identifier that was not reported is not found.
\<close>

theorem DetectMarkers_store:
  assumes "detect_and_estimate ext img w h fl pp rd td ms dict = Some (ids, rvecs, tvecs)"
    and "DetectMarkers ext det img w h fl pp rd td ms dict = Some (ok, det')"
  shows "distinct (map fst (detectedMarkers det')) \<and>
     fst ` set (detectedMarkers det') = set ids \<and>
     (\<forall>j. j < length ids \<and> (\<forall>j'. j < j' \<and> j' < length ids \<longrightarrow> ids ! j' \<noteq> ids ! j) \<longrightarrow>
        store_find (detectedMarkers det') (ids ! j) =
          Some (make_marker ext (ids ! j) (tvecs ! j) (rvecs ! j))) \<and>
     (\<forall>k. k \<notin> set ids \<longrightarrow> store_find (detectedMarkers det') k = None)"
proof -
  from assms obtain s' where loop: "marker_loop ext ids rvecs tvecs 0 [] = Some s'"
    and det': "det' = det\<lparr>detectedMarkers := s'\<rparr>"
    by (auto simp: DetectMarkers_Some_iff)
  note after = store_after_pass [OF loop]
  have "store_find s' (ids ! j) = Some (make_marker ext (ids ! j) (tvecs ! j) (rvecs ! j))"
    if "j < length ids" "\<forall>j'. j < j' \<and> j' < length ids \<longrightarrow> ids ! j' \<noteq> ids ! j" for j
    unfolding store_find_def after(2) pass_entries_def
    using that by (rule last_wins [where f = "\<lambda>j. ids ! j"])
  moreover have "store_find s' k = None" if "k \<notin> set ids" for k
    using that after(3) by (simp add: store_find_def map_of_eq_None_iff)
  ultimately show ?thesis
    using after(1,3) det' by simp
qed

text \<open>
  C6: a call of \<^verbatim>\<open>DetectMarkers\<close> that returns, returns \<^verbatim>\<open>true\<close>; it does return when
  the OpenCV calls return and give a rotation and a translation vector for every
  identifier; and when no marker is reported it returns \<^verbatim>\<open>true\<close> and the store is empty.
\<close>

theorem DetectMarkers_returns_true:
  "(\<forall>ok det'. DetectMarkers ext det img w h fl pp rd td ms dict = Some (ok, det') \<longrightarrow> ok) \<and>
   (\<forall>ids rvecs tvecs.
      detect_and_estimate ext img w h fl pp rd td ms dict = Some (ids, rvecs, tvecs) \<and>
      length ids \<le> length rvecs \<and> length ids \<le> length tvecs \<longrightarrow>
      (\<exists>det'. DetectMarkers ext det img w h fl pp rd td ms dict = Some (True, det'))) \<and>
   (\<forall>rvecs tvecs.
      detect_and_estimate ext img w h fl pp rd td ms dict = Some ([], rvecs, tvecs) \<longrightarrow>
      DetectMarkers ext det img w h fl pp rd td ms dict =
        Some (True, det\<lparr>detectedMarkers := []\<rparr>))"
proof (intro conjI allI impI)
  fix ok det'
  assume "DetectMarkers ext det img w h fl pp rd td ms dict = Some (ok, det')"
  then show ok by (auto simp: DetectMarkers_Some_iff)
next
  fix ids rvecs tvecs
  assume a: "detect_and_estimate ext img w h fl pp rd td ms dict = Some (ids, rvecs, tvecs) \<and>
      length ids \<le> length rvecs \<and> length ids \<le> length tvecs"
  then have "marker_loop ext ids rvecs tvecs 0 [] \<noteq> None"
    by (auto simp: marker_loop_None_iff)
  then obtain s' where "marker_loop ext ids rvecs tvecs 0 [] = Some s'"
    by auto
  with a show "\<exists>det'. DetectMarkers ext det img w h fl pp rd td ms dict = Some (True, det')"
    by (auto simp: DetectMarkers_Some_iff)
next
  fix rvecs tvecs
  assume "detect_and_estimate ext img w h fl pp rd td ms dict = Some ([], rvecs, tvecs)"
  then show "DetectMarkers ext det img w h fl pp rd td ms dict =
      Some (True, det\<lparr>detectedMarkers := []\<rparr>)"
    by (simp add: DetectMarkers_def marker_loop.simps)
qed


lemma example_pass:
  "detect_and_estimate example_externals (\<lambda>_. 0) 4 2 (\<lambda>_. 0) (\<lambda>_. 0) (\<lambda>_. 0) (\<lambda>_. 0) 1 0 =
     Some ([7, 3, 7], [Vec3d 1 2 3, Vec3d 4 5 6, Vec3d 7 8 9],
       [Vec3d 10 11 12, Vec3d 13 14 15, Vec3d 16 17 18])"
  by (simp add: detect_and_estimate_def example_externals_def)

lemma example_loop:
  "marker_loop example_externals [7, 3, 7] [Vec3d 1 2 3, Vec3d 4 5 6, Vec3d 7 8 9]
       [Vec3d 10 11 12, Vec3d 13 14 15, Vec3d 16 17 18] 0 [] =
     Some example_store"
  by (simp add: marker_loop.simps store_assign_def reorder_def make_marker_def
      example_externals_def example_store_def)

lemma example_run:
  "DetectMarkers example_externals example_detector (\<lambda>_. 0) 4 2 (\<lambda>_. 0) (\<lambda>_. 0) (\<lambda>_. 0)
       (\<lambda>_. 0) 1 0 =
     Some (True, \<lparr>detectedMarkers = example_store\<rparr>)"
  by (simp add: DetectMarkers_def example_pass example_loop example_detector_def)

lemma empty_pass:
  "detect_and_estimate empty_externals (\<lambda>_. 0) 4 2 (\<lambda>_. 0) (\<lambda>_. 0) (\<lambda>_. 0) (\<lambda>_. 0) 1 0 =
     Some ([], [], [])"
  by (simp add: detect_and_estimate_def empty_externals_def example_externals_def)

theorem DetectMarkers_store_witness:
  "detect_and_estimate example_externals (\<lambda>_. 0) 4 2 (\<lambda>_. 0) (\<lambda>_. 0) (\<lambda>_. 0) (\<lambda>_. 0) 1 0 =
     Some ([7, 3, 7], [Vec3d 1 2 3, Vec3d 4 5 6, Vec3d 7 8 9],
       [Vec3d 10 11 12, Vec3d 13 14 15, Vec3d 16 17 18]) \<and>
   DetectMarkers example_externals example_detector (\<lambda>_. 0) 4 2 (\<lambda>_. 0) (\<lambda>_. 0) (\<lambda>_. 0)
       (\<lambda>_. 0) 1 0 =
     Some (True, \<lparr>detectedMarkers = example_store\<rparr>) \<and>
   store_find example_store 7 =
     Some (make_marker example_externals 7 (Vec3d 16 17 18) (Vec3d 7 8 9))"
  using DetectMarkers_store [OF example_pass example_run] example_pass example_run
  by (simp add: store_find_def make_marker_def example_externals_def example_store_def)

theorem DetectMarkers_returns_true_witness:
  "DetectMarkers example_externals example_detector (\<lambda>_. 0) 4 2 (\<lambda>_. 0) (\<lambda>_. 0) (\<lambda>_. 0)
       (\<lambda>_. 0) 1 0 =
     Some (True, \<lparr>detectedMarkers = example_store\<rparr>) \<and>
   detect_and_estimate empty_externals (\<lambda>_. 0) 4 2 (\<lambda>_. 0) (\<lambda>_. 0) (\<lambda>_. 0) (\<lambda>_. 0) 1 0 =
     Some ([], [], []) \<and>
   DetectMarkers empty_externals example_detector (\<lambda>_. 0) 4 2 (\<lambda>_. 0) (\<lambda>_. 0) (\<lambda>_. 0)
       (\<lambda>_. 0) 1 0 =
     Some (True, \<lparr>detectedMarkers = []\<rparr>)"
  using DetectMarkers_returns_true [of empty_externals example_detector "\<lambda>_. 0" 4 2 "\<lambda>_. 0"
      "\<lambda>_. 0" "\<lambda>_. 0" "\<lambda>_. 0" 1 0] example_run empty_pass
  by (simp add: example_detector_def)

subsection \<open>Queries after a pass\<close>

lemma marker_id_make_marker: "marker_id (make_marker ext k t r) = k"
  by (simp add: make_marker_def)

text \<open>
  C7: after a call of \<^verbatim>\<open>DetectMarkers\<close> that returned, \<^verbatim>\<open>GetDetectedMarkerIds\<close> with
  a capacity of at least the number of stored markers succeeds; it writes the first
  \<open>n\<close> entries of the buffer and no other, \<open>n\<close> being the number of distinct
  identifiers in the store; what it writes are the identifiers of the store; and
  \<^verbatim>\<open>GetDetectedMarkerPose\<close> succeeds for each of them.
\<close>

theorem ids_and_poses_after_pass:
  assumes "DetectMarkers ext det img w h fl pp rd td ms dict = Some (ok, det')"
    and "int (length (detectedMarkers det')) \<le> sint size'"
    and "GetDetectedMarkerIds det' buf size' = (ok', buf', det'')"
  shows "ok' \<and>
     (\<forall>i. length (detectedMarkers det') \<le> i \<longrightarrow> buf' i = buf i) \<and>
     buf' ` {0..<length (detectedMarkers det')} = fst ` set (detectedMarkers det') \<and>
     card (fst ` set (detectedMarkers det')) = length (detectedMarkers det') \<and>
     (\<forall>i pos rot. i < length (detectedMarkers det') \<longrightarrow>
        fst (GetDetectedMarkerPose det' (buf' i) pos rot))"
proof -
  let ?s = "detectedMarkers det'"
  from assms(1) obtain ids rvecs tvecs
    where loop: "marker_loop ext ids rvecs tvecs 0 [] = Some ?s"
    by (auto simp: DetectMarkers_Some_iff)
  note after = store_after_pass [OF loop]
  have key: "marker_id (snd (?s ! i)) = fst (?s ! i)" if "i < length ?s" for i
  proof -
    from that have "(fst (?s ! i), snd (?s ! i)) \<in> set ?s" by simp
    from entry_after_pass [OF loop this] show ?thesis
      by (auto simp: marker_id_make_marker)
  qed
  have "0 \<le> sint size'" using assms(2) by linarith
  then have "GetDetectedMarkerIds det' buf size' = (True, write_ids ?s buf 0, det')"
    using assms(2) by (simp add: GetDetectedMarkerIds_nonneg)
  with assms(3) have ok': "ok'" and buf': "buf' = write_ids ?s buf 0"
    by auto
  have written: "buf' i = fst (?s ! i)" if "i < length ?s" for i
    using that key by (simp add: buf' write_ids_at)
  have rest: "buf' i = buf i" if "length ?s \<le> i" for i
    using that by (simp add: buf' write_ids_at)
  have img: "buf' ` {0..<length ?s} = fst ` set ?s"
  proof -
    have "buf' ` {0..<length ?s} = (\<lambda>i. fst (?s ! i)) ` {0..<length ?s}"
      using written by (intro image_cong) simp_all
    also have "\<dots> = set (map fst (map (nth ?s) [0..<length ?s]))"
      by (simp add: image_image)
    also have "\<dots> = fst ` set ?s"
      by (simp only: map_nth set_map)
    finally show ?thesis .
  qed
  have "card (fst ` set ?s) = length ?s"
    using distinct_card [OF after(1)] by simp
  moreover have "fst (GetDetectedMarkerPose det' (buf' i) pos rot)"
    if "i < length ?s" for i pos rot
  proof -
    from that have "buf' i \<in> fst ` set ?s"
      by (simp add: written)
    then obtain m where "map_of ?s (buf' i) = Some m"
      by (metis map_of_eq_None_iff not_Some_eq)
    then show ?thesis
      by (simp add: GetDetectedMarkerPose_def store_find_def)
  qed
  ultimately show ?thesis
    using ok' rest img by blast
qed

subsection \<open>Two calls with the same arguments\<close>

lemma detect_and_estimate_order:
  "detect_and_estimate (ext\<lparr>container_order := p\<rparr>) img w h fl pp rd td ms dict =
   detect_and_estimate ext img w h fl pp rd td ms dict"
  by (simp add: detect_and_estimate_def cameraMatrix_of_def distCoeffMatrix_of_def)

lemma pass_entries_order:
  "pass_entries (ext\<lparr>container_order := p\<rparr>) ids rvecs tvecs i =
   pass_entries ext ids rvecs tvecs i"
  by (simp add: pass_entries_def make_marker_def)

text \<open>
  C9: the outcome of \<^verbatim>\<open>DetectMarkers\<close> is the same whatever the store held before the
  call, so two calls with the same arguments give the same store. When the container
  orders its entries differently in the two calls, both calls return or neither does,
  and the two stores have the same identifiers and the same marker under each. The
  OpenCV routines are functions of their arguments here: a detector that is itself
  deterministic is presupposed.
\<close>

theorem DetectMarkers_deterministic:
  "DetectMarkers ext det1 img w h fl pp rd td ms dict =
     DetectMarkers ext det2 img w h fl pp rd td ms dict \<and>
   (DetectMarkers ext det1 img w h fl pp rd td ms dict = None \<longleftrightarrow>
    DetectMarkers (ext\<lparr>container_order := p\<rparr>) det2 img w h fl pp rd td ms dict = None) \<and>
   (\<forall>ok1 d1 ok2 d2.
      DetectMarkers ext det1 img w h fl pp rd td ms dict = Some (ok1, d1) \<and>
      DetectMarkers (ext\<lparr>container_order := p\<rparr>) det2 img w h fl pp rd td ms dict =
        Some (ok2, d2) \<longrightarrow>
      ok1 = ok2 \<and>
      fst ` set (detectedMarkers d1) = fst ` set (detectedMarkers d2) \<and>
      store_find (detectedMarkers d1) = store_find (detectedMarkers d2))"
proof -
  have same: "det1\<lparr>detectedMarkers := v\<rparr> = det2\<lparr>detectedMarkers := v\<rparr>" for v
    by simp
  have equal: "DetectMarkers ext det1 img w h fl pp rd td ms dict =
      DetectMarkers ext det2 img w h fl pp rd td ms dict"
    by (simp add: DetectMarkers_def same)
  have none: "DetectMarkers ext det1 img w h fl pp rd td ms dict = None \<longleftrightarrow>
      DetectMarkers (ext\<lparr>container_order := p\<rparr>) det2 img w h fl pp rd td ms dict = None"
    by (simp add: DetectMarkers_None_iff detect_and_estimate_order marker_loop_None_iff)
  have some: "ok1 = ok2 \<and>
      fst ` set (detectedMarkers d1) = fst ` set (detectedMarkers d2) \<and>
      store_find (detectedMarkers d1) = store_find (detectedMarkers d2)"
    if run1: "DetectMarkers ext det1 img w h fl pp rd td ms dict = Some (ok1, d1)"
      and run2: "DetectMarkers (ext\<lparr>container_order := p\<rparr>) det2 img w h fl pp rd td ms dict =
        Some (ok2, d2)"
    for ok1 d1 ok2 d2
  proof -
    from run1 run2 obtain ids rvecs tvecs
      where l1: "marker_loop ext ids rvecs tvecs 0 [] = Some (detectedMarkers d1)"
        and l2: "marker_loop (ext\<lparr>container_order := p\<rparr>) ids rvecs tvecs 0 [] =
          Some (detectedMarkers d2)"
        and oks: "ok1" "ok2"
      by (auto simp: DetectMarkers_Some_iff detect_and_estimate_order)
    note a1 = store_after_pass [OF l1] and a2 = store_after_pass [OF l2]
    show ?thesis
      using oks a1(2,3) a2(2,3)
      by (simp add: store_find_def fun_eq_iff pass_entries_order)
  qed
  from equal none some show ?thesis by blast
qed


lemma example_ids:
  "GetDetectedMarkerIds \<lparr>detectedMarkers = example_store\<rparr> (\<lambda>_. 0) 2 =
     (True, (\<lambda>_. 0)(0 := 7, 1 := 3), \<lparr>detectedMarkers = example_store\<rparr>)"
  by (simp add: GetDetectedMarkerIds_nonneg example_store_def)

theorem ids_and_poses_after_pass_witness:
  "DetectMarkers example_externals example_detector (\<lambda>_. 0) 4 2 (\<lambda>_. 0) (\<lambda>_. 0) (\<lambda>_. 0)
       (\<lambda>_. 0) 1 0 =
     Some (True, \<lparr>detectedMarkers = example_store\<rparr>) \<and>
   int (length example_store) \<le> sint (2 :: cint) \<and>
   GetDetectedMarkerIds \<lparr>detectedMarkers = example_store\<rparr> (\<lambda>_. 0) 2 =
     (True, (\<lambda>_. 0)(0 := 7, 1 := 3), \<lparr>detectedMarkers = example_store\<rparr>) \<and>
   card (fst ` set example_store) = 2 \<and>
   fst (GetDetectedMarkerPose \<lparr>detectedMarkers = example_store\<rparr> 7
     \<lparr>x = 0, y = 0, z = 0\<rparr> \<lparr>x = 0, y = 0, z = 0\<rparr>) \<and>
   fst (GetDetectedMarkerPose \<lparr>detectedMarkers = example_store\<rparr> 3
     \<lparr>x = 0, y = 0, z = 0\<rparr> \<lparr>x = 0, y = 0, z = 0\<rparr>)"
proof -
  have enough: "int (length (detectedMarkers \<lparr>detectedMarkers = example_store\<rparr>)) \<le>
      sint (2 :: cint)"
    by (simp add: example_store_def)
  from ids_and_poses_after_pass [OF example_run enough example_ids]
  have "card (fst ` set example_store) = length example_store"
    and "\<forall>i. i < length example_store \<longrightarrow>
      fst (GetDetectedMarkerPose \<lparr>detectedMarkers = example_store\<rparr>
        (((\<lambda>_. 0)(0 := 7, 1 := 3)) i) \<lparr>x = 0, y = 0, z = 0\<rparr> \<lparr>x = 0, y = 0, z = 0\<rparr>)"
    by simp_all
  then have "card (fst ` set example_store) = 2"
    and "fst (GetDetectedMarkerPose \<lparr>detectedMarkers = example_store\<rparr> 7
        \<lparr>x = 0, y = 0, z = 0\<rparr> \<lparr>x = 0, y = 0, z = 0\<rparr>)"
    and "fst (GetDetectedMarkerPose \<lparr>detectedMarkers = example_store\<rparr> 3
        \<lparr>x = 0, y = 0, z = 0\<rparr> \<lparr>x = 0, y = 0, z = 0\<rparr>)"
    by (simp_all add: example_store_def GetDetectedMarkerPose_def store_find_def)
  with example_run enough example_ids show ?thesis by simp
qed

lemma sorted_loop:
  "marker_loop (example_externals\<lparr>container_order := sort_key fst\<rparr>) [7, 3, 7]
       [Vec3d 1 2 3, Vec3d 4 5 6, Vec3d 7 8 9]
       [Vec3d 10 11 12, Vec3d 13 14 15, Vec3d 16 17 18] 0 [] =
     Some (rev example_store)"
  by (simp add: marker_loop.simps store_assign_def reorder_def make_marker_def
      example_externals_def example_store_def)

lemma sorted_run:
  "DetectMarkers (example_externals\<lparr>container_order := sort_key fst\<rparr>)
       \<lparr>detectedMarkers = []\<rparr> (\<lambda>_. 0) 4 2 (\<lambda>_. 0) (\<lambda>_. 0) (\<lambda>_. 0) (\<lambda>_. 0) 1 0 =
     Some (True, \<lparr>detectedMarkers = rev example_store\<rparr>)"
  by (simp add: DetectMarkers_def detect_and_estimate_order example_pass sorted_loop)

theorem DetectMarkers_deterministic_witness:
  "DetectMarkers example_externals example_detector (\<lambda>_. 0) 4 2 (\<lambda>_. 0) (\<lambda>_. 0) (\<lambda>_. 0)
       (\<lambda>_. 0) 1 0 =
     Some (True, \<lparr>detectedMarkers = example_store\<rparr>) \<and>
   DetectMarkers (example_externals\<lparr>container_order := sort_key fst\<rparr>)
       \<lparr>detectedMarkers = []\<rparr> (\<lambda>_. 0) 4 2 (\<lambda>_. 0) (\<lambda>_. 0) (\<lambda>_. 0) (\<lambda>_. 0) 1 0 =
     Some (True, \<lparr>detectedMarkers = rev example_store\<rparr>) \<and>
   fst ` set example_store = fst ` set (rev example_store) \<and>
   store_find example_store = store_find (rev example_store) \<and>
   example_store \<noteq> rev example_store"
proof -
  note runs = conjI [OF example_run sorted_run]
  from DetectMarkers_deterministic [THEN conjunct2, THEN conjunct2, rule_format, OF runs]
  have "fst ` set example_store = fst ` set (rev example_store) \<and>
      store_find example_store = store_find (rev example_store)"
    by simp
  moreover have "example_store \<noteq> rev example_store"
    by (simp add: example_store_def)
  ultimately show ?thesis
    using example_run sorted_run by simp
qed

subsection \<open>The camera model\<close>

text \<open>
  C5: the camera matrix is 3 by 3 with the focal lengths at (0,0) and (1,1), the
  principal point at (0,2) and (1,2), 1.0 at (2,2) and zero elsewhere; the distortion
  coefficients are the 1 by 5 row of the first two radial terms, the two tangential terms
  and the third radial term; and these two matrices are what \<^verbatim>\<open>DetectMarkers\<close> passes to
  \<^verbatim>\<open>estimatePoseSingleMarkers\<close>.
\<close>

theorem camera_model_layout:
  "cameraMatrix_of ext fl pp =
     \<lparr>rows = 3, cols = 3,
      elems = [float_to_double ext (fl 0), double_0, float_to_double ext (pp 0),
               double_0, float_to_double ext (fl 1), float_to_double ext (pp 1),
               double_0, double_0, double_1]\<rparr> \<and>
   distCoeffMatrix_of ext rd td =
     \<lparr>rows = 1, cols = 5,
      elems = [float_to_double ext (rd 0), float_to_double ext (rd 1),
               float_to_double ext (td 0), float_to_double ext (td 1),
               float_to_double ext (rd 2)]\<rparr> \<and>
   mat_at (cameraMatrix_of ext fl pp) 0 0 = float_to_double ext (fl 0) \<and>
   mat_at (cameraMatrix_of ext fl pp) 1 1 = float_to_double ext (fl 1) \<and>
   mat_at (cameraMatrix_of ext fl pp) 0 2 = float_to_double ext (pp 0) \<and>
   mat_at (cameraMatrix_of ext fl pp) 1 2 = float_to_double ext (pp 1) \<and>
   mat_at (cameraMatrix_of ext fl pp) 2 2 = double_1 \<and>
   mat_at (cameraMatrix_of ext fl pp) 0 1 = double_0 \<and>
   mat_at (cameraMatrix_of ext fl pp) 1 0 = double_0 \<and>
   mat_at (cameraMatrix_of ext fl pp) 2 0 = double_0 \<and>
   mat_at (cameraMatrix_of ext fl pp) 2 1 = double_0 \<and>
   detect_and_estimate ext img w h fl pp rd td ms dict =
     do {
       grayImage \<leftarrow> cvtColor ext (h, w, img);
       arUcoDictionary \<leftarrow> getPredefinedDictionary ext dict;
       (arUcoMarkers, arUcoMarkerIds) \<leftarrow> detectMarkers ext grayImage arUcoDictionary;
       (rotationVecs, translationVecs) \<leftarrow>
         estimatePoseSingleMarkers ext arUcoMarkers ms
           \<lparr>rows = 3, cols = 3,
            elems = [float_to_double ext (fl 0), double_0, float_to_double ext (pp 0),
                     double_0, float_to_double ext (fl 1), float_to_double ext (pp 1),
                     double_0, double_0, double_1]\<rparr>
           \<lparr>rows = 1, cols = 5,
            elems = [float_to_double ext (rd 0), float_to_double ext (rd 1),
                     float_to_double ext (td 0), float_to_double ext (td 1),
                     float_to_double ext (rd 2)]\<rparr>;
       Some (arUcoMarkerIds, rotationVecs, translationVecs)
     }"
proof -
  have camera: "cameraMatrix_of ext fl pp =
     \<lparr>rows = 3, cols = 3,
      elems = [float_to_double ext (fl 0), double_0, float_to_double ext (pp 0),
               double_0, float_to_double ext (fl 1), float_to_double ext (pp 1),
               double_0, double_0, double_1]\<rparr>"
    by (simp add: cameraMatrix_of_def Mat_fill_def at_put_def numeral_eq_Suc)
  have dist: "distCoeffMatrix_of ext rd td =
     \<lparr>rows = 1, cols = 5,
      elems = [float_to_double ext (rd 0), float_to_double ext (rd 1),
               float_to_double ext (td 0), float_to_double ext (td 1),
               float_to_double ext (rd 2)]\<rparr>"
    by (simp add: distCoeffMatrix_of_def Mat_fill_def at_put_def numeral_eq_Suc)
  have entries: "mat_at (cameraMatrix_of ext fl pp) 0 0 = float_to_double ext (fl 0)"
    "mat_at (cameraMatrix_of ext fl pp) 1 1 = float_to_double ext (fl 1)"
    "mat_at (cameraMatrix_of ext fl pp) 0 2 = float_to_double ext (pp 0)"
    "mat_at (cameraMatrix_of ext fl pp) 1 2 = float_to_double ext (pp 1)"
    "mat_at (cameraMatrix_of ext fl pp) 2 2 = double_1"
    "mat_at (cameraMatrix_of ext fl pp) 0 1 = double_0"
    "mat_at (cameraMatrix_of ext fl pp) 1 0 = double_0"
    "mat_at (cameraMatrix_of ext fl pp) 2 0 = double_0"
    "mat_at (cameraMatrix_of ext fl pp) 2 1 = double_0"
    by (simp_all add: camera mat_at_def)
  have call: "detect_and_estimate ext img w h fl pp rd td ms dict =
     do {
       grayImage \<leftarrow> cvtColor ext (h, w, img);
       arUcoDictionary \<leftarrow> getPredefinedDictionary ext dict;
       (arUcoMarkers, arUcoMarkerIds) \<leftarrow> detectMarkers ext grayImage arUcoDictionary;
       (rotationVecs, translationVecs) \<leftarrow>
         estimatePoseSingleMarkers ext arUcoMarkers ms
           \<lparr>rows = 3, cols = 3,
            elems = [float_to_double ext (fl 0), double_0, float_to_double ext (pp 0),
                     double_0, float_to_double ext (fl 1), float_to_double ext (pp 1),
                     double_0, double_0, double_1]\<rparr>
           \<lparr>rows = 1, cols = 5,
            elems = [float_to_double ext (rd 0), float_to_double ext (rd 1),
                     float_to_double ext (td 0), float_to_double ext (td 1),
                     float_to_double ext (rd 2)]\<rparr>;
       Some (arUcoMarkerIds, rotationVecs, translationVecs)
     }"
    unfolding detect_and_estimate_def camera dist ..
  from camera dist entries call show ?thesis by (intro conjI)
qed

subsection \<open>\<^verbatim>\<open>GetDilatedMask\<close> and the heap\<close>

lemma heap_read_new:
  "heap_read (h @ [Some b]) p = (if p = length h then Some b else heap_read h p)"
  by (auto simp: heap_read_def nth_append)

lemma heap_read_fresh: "heap_read h (length h) = None"
  by (simp add: heap_read_def)

lemma heap_read_Some_less: "heap_read h p = Some b \<Longrightarrow> p < length h"
  by (simp add: heap_read_def split: if_splits)

lemma heap_read_write:
  "heap_read (heap_write h q b) p =
     (if p = q \<and> q < length h then Some b else heap_read h p)"
  by (auto simp: heap_read_def heap_write_def)

lemma heap_read_delete:
  "heap_read (heap_delete h q) p = (if p = q then None else heap_read h p)"
  by (auto simp: heap_read_def heap_delete_def)

lemma GetDilatedMask_locals_Some_iff:
  "GetDilatedMask_locals cv h mask' col row = Some (h2, d) \<longleftrightarrow>
   (\<exists>buf kernal dilated.
      heap_read h mask' = Some buf \<and> 0 < sint col \<and> 0 < sint row \<and>
      nat (sint row) * nat (sint col) \<le> length buf \<and>
      getStructuringElement cv MORPH_RECT (3, 3) (1, 1) = Some kernal \<and>
      dilate cv
        \<lparr>rows = nat (sint row), cols = nat (sint col),
         elems = take (nat (sint row) * nat (sint col)) buf\<rparr> kernal = Some dilated \<and>
      d = length h \<and> h2 = h @ [Some dilated])"
  by (auto simp: GetDilatedMask_locals_def Let_def bind_eq_Some_conv heap_new_def
      heap_write_def split: if_splits)

lemma GetDilatedMask_Some_iff:
  "GetDilatedMask cv h mask' col row = Some (p, h') \<longleftrightarrow>
   (\<exists>h2 d. GetDilatedMask_locals cv h mask' col row = Some (h2, d) \<and>
      p = mask' \<and> h' = heap_delete h2 d)"
  by (auto simp: GetDilatedMask_def bind_eq_Some_conv)

text \<open>
  C2: a call of \<^verbatim>\<open>GetDilatedMask\<close> that returns, returns the pointer it was given; the
  dilated elements were written to the buffer of \<^verbatim>\<open>dilatedMask\<close>, whose address is new
  and is not the returned one; and every buffer of the caller, the mask among them, holds
  after the call what it held before. The call returns when the mask is a live buffer of
  at least \<^verbatim>\<open>row * col\<close> elements, both dimensions are positive and the two OpenCV
  routines return.
\<close>

theorem GetDilatedMask_returns_input:
  "(\<forall>p h'. GetDilatedMask cv h mask' col row = Some (p, h') \<longrightarrow>
      p = mask' \<and>
      (\<forall>a buf. heap_read h a = Some buf \<longrightarrow> heap_read h' a = Some buf) \<and>
      (\<exists>h2 dilatedMask kernal dilated.
         GetDilatedMask_locals cv h mask' col row = Some (h2, dilatedMask) \<and>
         h' = heap_delete h2 dilatedMask \<and>
         dilatedMask \<noteq> p \<and> heap_read h dilatedMask = None \<and>
         getStructuringElement cv MORPH_RECT (3, 3) (1, 1) = Some kernal \<and>
         dilate cv
           \<lparr>rows = nat (sint row), cols = nat (sint col),
            elems = take (nat (sint row) * nat (sint col)) (the (heap_read h mask'))\<rparr> kernal =
           Some dilated \<and>
         heap_read h2 dilatedMask = Some dilated \<and>
         heap_read h2 p = heap_read h p)) \<and>
   (\<forall>buf kernal dilated.
      heap_read h mask' = Some buf \<and> 0 < sint col \<and> 0 < sint row \<and>
      nat (sint row) * nat (sint col) \<le> length buf \<and>
      getStructuringElement cv MORPH_RECT (3, 3) (1, 1) = Some kernal \<and>
      dilate cv
        \<lparr>rows = nat (sint row), cols = nat (sint col),
         elems = take (nat (sint row) * nat (sint col)) buf\<rparr> kernal = Some dilated \<longrightarrow>
      (\<exists>h'. GetDilatedMask cv h mask' col row = Some (mask', h')))"
proof -
  have returned: "p = mask' \<and>
      (\<forall>a buf. heap_read h a = Some buf \<longrightarrow> heap_read h' a = Some buf) \<and>
      (\<exists>h2 dilatedMask kernal dilated.
         GetDilatedMask_locals cv h mask' col row = Some (h2, dilatedMask) \<and>
         h' = heap_delete h2 dilatedMask \<and>
         dilatedMask \<noteq> p \<and> heap_read h dilatedMask = None \<and>
         getStructuringElement cv MORPH_RECT (3, 3) (1, 1) = Some kernal \<and>
         dilate cv
           \<lparr>rows = nat (sint row), cols = nat (sint col),
            elems = take (nat (sint row) * nat (sint col)) (the (heap_read h mask'))\<rparr> kernal =
           Some dilated \<and>
         heap_read h2 dilatedMask = Some dilated \<and>
         heap_read h2 p = heap_read h p)"
    if run: "GetDilatedMask cv h mask' col row = Some (p, h')" for p h'
  proof -
    from run obtain h2 d where locals: "GetDilatedMask_locals cv h mask' col row = Some (h2, d)"
      and p: "p = mask'" and h': "h' = heap_delete h2 d"
      by (auto simp: GetDilatedMask_Some_iff)
    from locals obtain buf kernal dilated
      where buf: "heap_read h mask' = Some buf"
        and kernal: "getStructuringElement cv MORPH_RECT (3, 3) (1, 1) = Some kernal"
        and dilated: "dilate cv
          \<lparr>rows = nat (sint row), cols = nat (sint col),
           elems = take (nat (sint row) * nat (sint col)) buf\<rparr> kernal = Some dilated"
        and d: "d = length h" and h2: "h2 = h @ [Some dilated]"
      by (auto simp: GetDilatedMask_locals_Some_iff)
    have less: "mask' < length h"
      using buf by (rule heap_read_Some_less)
    have kept: "heap_read h' a = Some b" if "heap_read h a = Some b" for a b
    proof -
      from that have "a < length h" by (rule heap_read_Some_less)
      with that show ?thesis
        by (simp add: h' h2 d heap_read_delete heap_read_new)
    qed
    have "d \<noteq> p" using less by (simp add: d p)
    moreover have "heap_read h d = None" by (simp add: d heap_read_fresh)
    moreover have "heap_read h2 d = Some dilated" by (simp add: h2 d heap_read_new)
    moreover have "heap_read h2 p = heap_read h p"
      using less by (simp add: h2 p heap_read_new)
    ultimately show ?thesis
      using p kept locals h' kernal dilated buf by auto
  qed
  have returns: "\<exists>h'. GetDilatedMask cv h mask' col row = Some (mask', h')"
    if "heap_read h mask' = Some buf \<and> 0 < sint col \<and> 0 < sint row \<and>
      nat (sint row) * nat (sint col) \<le> length buf \<and>
      getStructuringElement cv MORPH_RECT (3, 3) (1, 1) = Some kernal \<and>
      dilate cv
        \<lparr>rows = nat (sint row), cols = nat (sint col),
         elems = take (nat (sint row) * nat (sint col)) buf\<rparr> kernal = Some dilated"
    for buf kernal dilated
  proof -
    from that have "GetDilatedMask_locals cv h mask' col row =
        Some (h @ [Some dilated], length h)"
      by (subst GetDilatedMask_locals_Some_iff) blast
    then show ?thesis
      by (simp add: GetDilatedMask_def)
  qed
  from returned returns show ?thesis by blast
qed


lemma rect_offsets:
  "element_offsets (rect_element (3, 3)) =
     [(- 1, - 1), (- 1, 0), (- 1, 1), (0, - 1), (0, 0), (0, 1), (1, - 1), (1, 0), (1, 1)]"
  by code_simp

lemma example_dilated:
  "dilate_model \<lparr>rows = 2, cols = 3, elems = [0, 0, 0, 0, 5, 0]\<rparr> (rect_element (3, 3)) =
     [5, 5, 5, 5, 5, 5]"
  by code_simp

lemma example_locals:
  "GetDilatedMask_locals spec_morphology example_heap 0 3 2 =
     Some ([Some [0, 0, 0, 0, 5, 0], Some [5, 5, 5, 5, 5, 5]], 1)"
  by (simp add: GetDilatedMask_locals_def spec_morphology_def example_heap_def heap_read_def
      heap_new_def heap_write_def example_dilated)

lemma example_mask_run:
  "GetDilatedMask spec_morphology example_heap 0 3 2 =
     Some (0, [Some [0, 0, 0, 0, 5, 0], None])"
  by (simp add: GetDilatedMask_def example_locals heap_delete_def)

theorem GetDilatedMask_returns_input_witness:
  "heap_read example_heap 0 = Some [0, 0, 0, 0, 5, 0] \<and>
   0 < sint (3 :: cint) \<and> 0 < sint (2 :: cint) \<and>
   nat (sint (2 :: cint)) * nat (sint (3 :: cint)) \<le> length [0, 0, 0, 0, 5, 0 :: uint16_t] \<and>
   GetDilatedMask_locals spec_morphology example_heap 0 3 2 =
     Some ([Some [0, 0, 0, 0, 5, 0], Some [5, 5, 5, 5, 5, 5]], 1) \<and>
   GetDilatedMask spec_morphology example_heap 0 3 2 =
     Some (0, [Some [0, 0, 0, 0, 5, 0], None]) \<and>
   heap_read [Some [0, 0, 0, 0, 5, 0], None] 0 = Some [0, 0, 0, 0, 5, 0] \<and>
   heap_read example_heap 1 = None"
proof -
  note inst = GetDilatedMask_returns_input [of spec_morphology example_heap 0 3 2]
  have buf: "heap_read example_heap 0 = Some [0, 0, 0, 0, 5, 0]"
    by (simp add: example_heap_def heap_read_def)
  have fresh: "heap_read example_heap 1 = None"
    by (simp add: example_heap_def heap_read_def)
  have valid: "heap_read example_heap 0 = Some [0, 0, 0, 0, 5, 0] \<and>
      0 < sint (3 :: cint) \<and> 0 < sint (2 :: cint) \<and>
      nat (sint (2 :: cint)) * nat (sint (3 :: cint)) \<le> length [0, 0, 0, 0, 5, 0 :: uint16_t] \<and>
      getStructuringElement spec_morphology MORPH_RECT (3, 3) (1, 1) =
        Some (rect_element (3, 3)) \<and>
      dilate spec_morphology
        \<lparr>rows = nat (sint (2 :: cint)), cols = nat (sint (3 :: cint)),
         elems = take (nat (sint (2 :: cint)) * nat (sint (3 :: cint))) [0, 0, 0, 0, 5, 0]\<rparr>
        (rect_element (3, 3)) = Some [5, 5, 5, 5, 5, 5]"
    by (simp add: buf spec_morphology_def example_dilated)
  from inst [THEN conjunct2, rule_format, OF valid]
  obtain h' where "GetDilatedMask spec_morphology example_heap 0 3 2 = Some (0, h')" ..
  from inst [THEN conjunct1, rule_format, OF this]
  have "\<forall>a b. heap_read example_heap a = Some b \<longrightarrow> heap_read h' a = Some b"
    by blast
  with buf have "heap_read h' 0 = Some [0, 0, 0, 0, 5, 0]"
    by blast
  moreover have "h' = [Some [0, 0, 0, 0, 5, 0], None]"
    using \<open>GetDilatedMask spec_morphology example_heap 0 3 2 = Some (0, h')\<close>
    by (simp add: example_mask_run)
  ultimately show ?thesis
    using buf fresh example_locals example_mask_run by simp
qed

subsection \<open>Dilation grows the labelled region\<close>

lemma fold_max_start: "a \<le> fold max vs (a :: 'a :: linorder)"
proof (induction vs arbitrary: a)
  case Nil
  show ?case by simp
next
  case (Cons v vs)
  have "a \<le> max v a" by simp
  also have "\<dots> \<le> fold max vs (max v a)" by (rule Cons.IH)
  finally show ?case by simp
qed

lemma fold_max_member: "v \<in> set vs \<Longrightarrow> v \<le> fold max vs (a :: 'a :: linorder)"
proof (induction vs arbitrary: a)
  case Nil
  then show ?case by simp
next
  case (Cons u vs)
  show ?case
  proof (cases "v = u")
    case True
    have "v \<le> max u a" using True by simp
    also have "\<dots> \<le> fold max vs (max u a)" by (rule fold_max_start)
    finally show ?thesis by simp
  next
    case False
    with Cons.prems have "v \<in> set vs" by simp
    then show ?thesis by (simp add: Cons.IH)
  qed
qed

lemma dilate_pixel_ge:
  assumes "(0, 0) \<in> set offs" and "r < rows src" and "c < cols src"
  shows "mat_at src r c \<le> dilate_pixel src offs r c"
proof -
  have "inside src (int r + 0) (int c + 0)"
    using assms(2,3) by (simp add: inside_def)
  with assms(1) have "mat_at src r c \<in>
      set [mat_at src (nat (int r + dr)) (nat (int c + dc)).
            (dr, dc) \<leftarrow> offs, inside src (int r + dr) (int c + dc)]"
    by force
  then show ?thesis
    unfolding dilate_pixel_def by (rule fold_max_member)
qed

lemma index_less:
  fixes r c R C :: nat
  assumes "r < R" and "c < C"
  shows "r * C + c < R * C"
proof -
  have "r * C + c < r * C + C" using assms(2) by simp
  also have "\<dots> = Suc r * C" by simp
  also have "\<dots> \<le> R * C" using assms(1) by (intro mult_le_mono1) simp
  finally show ?thesis .
qed

lemma dilate_model_nth:
  assumes "i < rows src * cols src"
  shows "dilate_model src k ! i =
     dilate_pixel src (element_offsets k) (i div cols src) (i mod cols src)"
  using assms by (simp add: dilate_model_def)

lemma length_dilate_model: "length (dilate_model src k) = rows src * cols src"
  by (simp add: dilate_model_def)

lemma dilate_model_ge:
  assumes "(0, 0) \<in> set (element_offsets k)" and "i < rows src * cols src"
    and "length (elems src) = rows src * cols src"
  shows "elems src ! i \<le> dilate_model src k ! i"
proof -
  have pos: "0 < cols src"
    using assms(2) by (cases "cols src") simp_all
  then have c: "i mod cols src < cols src" by simp
  have r: "i div cols src < rows src"
    using assms(2) by (simp add: less_mult_imp_div_less)
  have "elems src ! i = mat_at src (i div cols src) (i mod cols src)"
    by (simp add: mat_at_def)
  also have "\<dots> \<le> dilate_pixel src (element_offsets k) (i div cols src) (i mod cols src)"
    using assms(1) r c by (rule dilate_pixel_ge)
  finally show ?thesis
    using assms(2) by (simp add: dilate_model_nth)
qed

lemma labelled_mono:
  assumes "length xs = length ys" and "\<And>i. i < length xs \<Longrightarrow> xs ! i \<noteq> 0 \<Longrightarrow> ys ! i \<noteq> 0"
  shows "labelled xs \<le> labelled ys"
  using assms
proof (induction xs ys rule: list_induct2)
  case Nil
  show ?case by (simp add: labelled_def)
next
  case (Cons v xs w ys)
  have head: "v \<noteq> 0 \<Longrightarrow> w \<noteq> 0"
    using Cons.prems [of 0] by simp
  have "labelled xs \<le> labelled ys"
  proof (rule Cons.IH)
    fix i assume "i < length xs" "xs ! i \<noteq> 0"
    then show "ys ! i \<noteq> 0" using Cons.prems [of "Suc i"] by simp
  qed
  with head show ?case by (auto simp: labelled_def)
qed

lemma dilation_extensive_aux:
  assumes "GetDilatedMask_locals spec_morphology h mask' col row = Some (h2, dilatedMask)"
    and "heap_read h mask' = Some buf"
  shows "\<exists>dilated. heap_read h2 dilatedMask = Some dilated \<and>
     length dilated = nat (sint row) * nat (sint col) \<and>
     (\<forall>r c. r < nat (sint row) \<and> c < nat (sint col) \<and> buf ! (r * nat (sint col) + c) \<noteq> 0 \<longrightarrow>
        dilated ! (r * nat (sint col) + c) \<noteq> 0) \<and>
     labelled (take (nat (sint row) * nat (sint col)) buf) \<le> labelled dilated"
proof -
  let ?R = "nat (sint row)" and ?C = "nat (sint col)"
  let ?src = "\<lparr>rows = ?R, cols = ?C, elems = take (?R * ?C) buf\<rparr>"
  let ?out = "dilate_model ?src (rect_element (3, 3))"
  from assms have fits: "?R * ?C \<le> length buf"
    and d: "dilatedMask = length h" and h2: "h2 = h @ [Some ?out]"
    by (auto simp: GetDilatedMask_locals_Some_iff spec_morphology_def MORPH_RECT_def)
  have zero: "(0, 0) \<in> set (element_offsets (rect_element (3, 3)))"
    by (simp add: rect_offsets)
  have len: "length (elems ?src) = rows ?src * cols ?src"
    using fits by simp
  have ge: "buf ! i \<le> ?out ! i" if "i < ?R * ?C" for i
    using dilate_model_ge [OF zero _ len, of i] that by simp
  have keep: "?out ! i \<noteq> 0" if "i < ?R * ?C" "buf ! i \<noteq> 0" for i
  proof
    assume "?out ! i = 0"
    with ge [OF that(1)] have "buf ! i = 0" by simp
    with that(2) show False by simp
  qed
  have "heap_read h2 dilatedMask = Some ?out"
    by (simp add: h2 d heap_read_new)
  moreover have "length ?out = ?R * ?C"
    by (simp add: length_dilate_model)
  moreover have "?out ! (r * ?C + c) \<noteq> 0"
    if "r < ?R \<and> c < ?C \<and> buf ! (r * ?C + c) \<noteq> 0" for r c
    using that by (intro keep index_less) simp_all
  moreover have "labelled (take (?R * ?C) buf) \<le> labelled ?out"
  proof (rule labelled_mono)
    show "length (take (?R * ?C) buf) = length ?out"
      using fits by (simp add: length_dilate_model)
  next
    fix i assume "i < length (take (?R * ?C) buf)" "take (?R * ?C) buf ! i \<noteq> 0"
    then show "?out ! i \<noteq> 0" by (intro keep) simp_all
  qed
  ultimately show ?thesis by blast
qed

lemma spec_dilation_returns:
  assumes "heap_read h mask' = Some buf" and "0 < sint col" and "0 < sint row"
    and "nat (sint row) * nat (sint col) \<le> length buf"
  shows "\<exists>h2 d. GetDilatedMask_locals spec_morphology h mask' col row = Some (h2, d)"
  using assms
  by (simp add: GetDilatedMask_locals_Some_iff spec_morphology_def MORPH_RECT_def)

text \<open>
  C8: with the dilation of the spec, \<^verbatim>\<open>GetDilatedMask\<close> computes a result for every
  mask with positive dimensions; every pixel that is non-zero in the mask is non-zero at
  the same row and column of the dilated buffer, and the dilated buffer has at least as
  many non-zero pixels as the mask.
\<close>

theorem dilation_extensive:
  "(\<forall>buf. heap_read h mask' = Some buf \<and> 0 < sint col \<and> 0 < sint row \<and>
      nat (sint row) * nat (sint col) \<le> length buf \<longrightarrow>
      (\<exists>h2 d. GetDilatedMask_locals spec_morphology h mask' col row = Some (h2, d))) \<and>
   (\<forall>h2 dilatedMask buf.
      GetDilatedMask_locals spec_morphology h mask' col row = Some (h2, dilatedMask) \<and>
      heap_read h mask' = Some buf \<longrightarrow>
      (\<exists>dilated. heap_read h2 dilatedMask = Some dilated \<and>
         length dilated = nat (sint row) * nat (sint col) \<and>
         (\<forall>r c. r < nat (sint row) \<and> c < nat (sint col) \<and>
            buf ! (r * nat (sint col) + c) \<noteq> 0 \<longrightarrow>
            dilated ! (r * nat (sint col) + c) \<noteq> 0) \<and>
         labelled (take (nat (sint row) * nat (sint col)) buf) \<le> labelled dilated))"
  using spec_dilation_returns [of h mask' _ col row]
    dilation_extensive_aux [of h mask' col row]
  by blast

theorem dilation_extensive_witness:
  "heap_read example_heap 0 = Some [0, 0, 0, 0, 5, 0] \<and>
   0 < sint (3 :: cint) \<and> 0 < sint (2 :: cint) \<and>
   nat (sint (2 :: cint)) * nat (sint (3 :: cint)) \<le> length [0, 0, 0, 0, 5, 0 :: uint16_t] \<and>
   GetDilatedMask_locals spec_morphology example_heap 0 3 2 =
     Some ([Some [0, 0, 0, 0, 5, 0], Some [5, 5, 5, 5, 5, 5]], 1) \<and>
   heap_read [Some [0, 0, 0, 0, 5, 0], Some [5, 5, 5, 5, 5, 5]] 1 = Some [5, 5, 5, 5, 5, 5] \<and>
   [0, 0, 0, 0, 5, 0 :: uint16_t] ! (1 * nat (sint (3 :: cint)) + 1) \<noteq> 0 \<and>
   [5, 5, 5, 5, 5, 5 :: uint16_t] ! (1 * nat (sint (3 :: cint)) + 1) \<noteq> 0 \<and>
   labelled [0, 0, 0, 0, 5, 0] = 1 \<and> labelled [5, 5, 5, 5, 5, 5] = 6"
proof -
  note inst = dilation_extensive [of example_heap 0 3 2]
  have buf: "heap_read example_heap 0 = Some [0, 0, 0, 0, 5, 0]"
    by (simp add: example_heap_def heap_read_def)
  have valid: "heap_read example_heap 0 = Some [0, 0, 0, 0, 5, 0] \<and>
      0 < sint (3 :: cint) \<and> 0 < sint (2 :: cint) \<and>
      nat (sint (2 :: cint)) * nat (sint (3 :: cint)) \<le> length [0, 0, 0, 0, 5, 0 :: uint16_t]"
    by (simp add: buf)
  from inst [THEN conjunct1, rule_format, OF valid]
  obtain h2 d where run: "GetDilatedMask_locals spec_morphology example_heap 0 3 2 = Some (h2, d)"
    by blast
  from inst [THEN conjunct2, rule_format, OF conjI [OF run buf]]
  obtain dilated where out: "heap_read h2 d = Some dilated"
    and grown: "labelled (take (nat (sint (2 :: cint)) * nat (sint (3 :: cint)))
      [0, 0, 0, 0, 5, 0]) \<le> labelled dilated"
    by blast
  from run have "h2 = [Some [0, 0, 0, 0, 5, 0], Some [5, 5, 5, 5, 5, 5]]" and "d = 1"
    by (simp_all add: example_locals)
  with out have "heap_read [Some [0, 0, 0, 0, 5, 0], Some [5, 5, 5, 5, 5, 5]] 1 = Some dilated"
    by simp
  then have "heap_read [Some [0, 0, 0, 0, 5, 0], Some [5, 5, 5, 5, 5, 5]] 1 =
      Some [5, 5, 5, 5, 5, 5]"
    by (simp add: heap_read_def)
  then show ?thesis
    using valid example_locals by (simp add: labelled_def)
qed

end
